theory Spec2Isabelle
  imports Main
begin

section \<open>Values of the JavaScript runtime\<close>

text \<open>
  The handlers of \<^verbatim>\<open>app.js\<close> work on what \<^verbatim>\<open>JSON.parse\<close> returns: null, booleans,
  numbers, strings, arrays and objects. An object is the list of its own properties in
  the order the runtime enumerates them; reading a property takes the first entry of
  that name. A Number is an IEEE double. The embedding carries the integer-valued
  doubles, as the mathematical integer they denote, and writes the rounding of an
  addition out (\<open>to_double\<close>); numbers with a fractional part and literals beyond
  the range of a double are outside it, and the sign of zero is not kept.
\<close>

datatype json =
    JNull
  | JBool bool
  | JNum int
  | JStr string
  | JArr "json list"
  | JObj "(string \<times> json) list"

text \<open>A Number as an expression yields it: \<^verbatim>\<open>Math.max\<close> and \<^verbatim>\<open>parseInt\<close> can give NaN.\<close>

datatype jsnum = Finite int | NaN | PosInfinity | NegInfinity

text \<open>What a handler can throw: a rejected file operation, \<^verbatim>\<open>JSON.parse\<close> on a text
  that is not JSON, a property read on null or a call of something that is no function,
  and a call with more arguments than the engine can pass.\<close>

datatype exn = IOError | SyntaxError | TypeError | RangeError

text \<open>
  A value built by the handler itself: \<^verbatim>\<open>newUser\<close> holds the Number \<^verbatim>\<open>nextId\<close>
  beside parsed values, and \<^verbatim>\<open>users\<close> holds \<^verbatim>\<open>newUser\<close> after the push.
\<close>

datatype jsval =
    VNum jsnum
  | VJson json
  | VArr "jsval list"
  | VObj "(string \<times> jsval) list"

subsection \<open>Numbers\<close>

text \<open>The number of binary digits of a positive integer.\<close>

function bit_length :: "int \<Rightarrow> nat" where
  "bit_length n = (if n \<le> 0 then 0 else Suc (bit_length (n div 2)))"
  by pat_completeness auto
termination
  by (relation "measure nat") auto

declare bit_length.simps [simp del]

text \<open>
  The double nearest to an integer, ties to the even significand: 53 bits are kept, and
  a magnitude that rounds to \<open>2 ^ 1024\<close> or more is an infinity. Below \<open>2 ^ 53\<close>
  nothing is dropped.
\<close>

definition to_double :: "int \<Rightarrow> jsnum" where
  "to_double n =
     (let a = \<bar>n\<bar>;
          e = bit_length a - 53;
          q = a div 2 ^ e;
          r = a mod 2 ^ e;
          m = (if 2 ^ e < 2 * r \<or> (2 * r = 2 ^ e \<and> odd q) then q + 1 else q) * 2 ^ e
      in if 2 ^ 1024 \<le> m then (if n < 0 then NegInfinity else PosInfinity)
         else Finite (if n < 0 then - m else m))"

text \<open>The operator \<^verbatim>\<open>+\<close> on two Numbers.\<close>

fun js_add :: "jsnum \<Rightarrow> jsnum \<Rightarrow> jsnum" where
  "js_add (Finite a) (Finite b) = to_double (a + b)"
| "js_add NaN y = NaN"
| "js_add x NaN = NaN"
| "js_add PosInfinity NegInfinity = NaN"
| "js_add NegInfinity PosInfinity = NaN"
| "js_add PosInfinity y = PosInfinity"
| "js_add NegInfinity y = NegInfinity"
| "js_add (Finite a) y = y"

text \<open>The comparison \<^verbatim>\<open>x < y\<close> on two Numbers; false when either is NaN.\<close>

fun js_less :: "jsnum \<Rightarrow> jsnum \<Rightarrow> bool" where
  "js_less (Finite a) (Finite b) = (a < b)"
| "js_less NaN y = False"
| "js_less x NaN = False"
| "js_less x NegInfinity = False"
| "js_less PosInfinity y = False"
| "js_less NegInfinity y = True"
| "js_less (Finite a) PosInfinity = True"

text \<open>
  \<^verbatim>\<open>Math.max\<close> over Numbers: it starts from \<open>-Infinity\<close>, returns NaN as soon as an
  argument is NaN and keeps the greater value otherwise.
\<close>

fun Math_max_from :: "jsnum \<Rightarrow> jsnum list \<Rightarrow> jsnum" where
  "Math_max_from highest [] = highest"
| "Math_max_from highest (x # xs) =
     (if x = NaN then NaN
      else Math_max_from (if js_less highest x then x else highest) xs)"

subsection \<open>Reading values\<close>

text \<open>
  \<^verbatim>\<open>v.id\<close> and \<^verbatim>\<open>v.role\<close>: a TypeError on null, the own property of an object (\<open>None\<close> is
  \<^verbatim>\<open>undefined\<close>), and \<^verbatim>\<open>undefined\<close> on every other value, none of which has a
  property of either name.
\<close>

fun get_prop :: "json \<Rightarrow> string \<Rightarrow> exn + json option" where
  "get_prop JNull k = Inl TypeError"
| "get_prop (JObj props) k = Inr (map_of props k)"
| "get_prop v k = Inr None"

text \<open>The truth value of a parsed value in a condition.\<close>

fun truthy :: "json \<Rightarrow> bool" where
  "truthy JNull = False"
| "truthy (JBool b) = b"
| "truthy (JNum n) = (n \<noteq> 0)"
| "truthy (JStr s) = (s \<noteq> [])"
| "truthy (JArr xs) = True"
| "truthy (JObj props) = True"

text \<open>\<^verbatim>\<open>a || b\<close>, where \<open>a\<close> may be \<^verbatim>\<open>undefined\<close>.\<close>

fun js_or :: "json option \<Rightarrow> json \<Rightarrow> json" where
  "js_or None b = b"
| "js_or (Some a) b = (if truthy a then a else b)"

text \<open>
  \<^verbatim>\<open>ToNumber\<close> as \<^verbatim>\<open>Math.max\<close> applies it to each argument. On \<^verbatim>\<open>undefined\<close>, null,
  booleans and Numbers it is written out. On strings, arrays and objects it reads a
  numeric literal or calls \<^verbatim>\<open>valueOf\<close> and \<^verbatim>\<open>toString\<close>, which can throw; that part of
  the engine is a parameter, \<open>to_number\<close>.

  \<^verbatim>\<open>Math.max(...ids)\<close> passes every id as an argument of one call. An engine passes
  only so many: with more, the call throws a RangeError (in Node, with its stack as it
  comes, beyond some 120000 arguments). That number is the parameter \<open>max_arguments\<close>.
\<close>

type_synonym coercion = "json \<Rightarrow> exn + jsnum"

record runtime =
  to_number :: coercion
  max_arguments :: int

fun ToNumber :: "coercion \<Rightarrow> json option \<Rightarrow> exn + jsnum" where
  "ToNumber coerce None = Inr NaN"
| "ToNumber coerce (Some JNull) = Inr (Finite 0)"
| "ToNumber coerce (Some (JBool b)) = Inr (Finite (if b then 1 else 0))"
| "ToNumber coerce (Some (JNum n)) = Inr (Finite n)"
| "ToNumber coerce (Some v) = coerce v"

text \<open>A callback applied to each element in turn; the first exception ends the loop.\<close>

fun map_exn :: "('a \<Rightarrow> exn + 'b) \<Rightarrow> 'a list \<Rightarrow> exn + 'b list" where
  "map_exn f [] = Inr []"
| "map_exn f (x # xs) =
     (case f x of
        Inl err \<Rightarrow> Inl err
      | Inr y \<Rightarrow> (case map_exn f xs of Inl err \<Rightarrow> Inl err | Inr ys \<Rightarrow> Inr (y # ys)))"

definition Math_max :: "runtime \<Rightarrow> json option list \<Rightarrow> exn + jsnum" where
  "Math_max rt args =
     (if max_arguments rt < int (length args) then Inl RangeError
      else (case map_exn (ToNumber (to_number rt)) args of
              Inl err \<Rightarrow> Inl err
            | Inr ns \<Rightarrow> Inr (Math_max_from NegInfinity ns)))"

text \<open>\<^verbatim>\<open>===\<close> between a property that was read and a Number: equal Numbers only, and NaN
  equals nothing.\<close>

fun strict_equals :: "json option \<Rightarrow> jsnum \<Rightarrow> bool" where
  "strict_equals (Some (JNum m)) (Finite n) = (m = n)"
| "strict_equals v x = False"

text \<open>\<^verbatim>\<open>Array.prototype.find\<close> with a callback that can throw.\<close>

fun Array_find :: "(json \<Rightarrow> exn + bool) \<Rightarrow> json list \<Rightarrow> exn + json option" where
  "Array_find p [] = Inr None"
| "Array_find p (u # us) =
     (case p u of
        Inl err \<Rightarrow> Inl err
      | Inr b \<Rightarrow> (if b then Inr (Some u) else Array_find p us))"

subsection \<open>parseInt\<close>

text \<open>
  \<^verbatim>\<open>parseInt(s, 10)\<close>: leading white space is dropped, one sign is read, then the
  longest run of decimal digits; no digit gives NaN. Strings are lists of 8-bit
  characters here, so of the white space of the language the tab, line feed, vertical
  tab, form feed, carriage return, space and no-break space are there.
\<close>

definition StrWhiteSpaceChar :: "char \<Rightarrow> bool" where
  "StrWhiteSpaceChar c =
     (c \<in> set [CHR 0x09, CHR 0x0A, CHR 0x0B, CHR 0x0C, CHR 0x0D, CHR 0x20, CHR 0xA0])"

definition digit_value :: "char \<Rightarrow> int option" where
  "digit_value =
     map_of [(CHR ''0'', 0), (CHR ''1'', 1), (CHR ''2'', 2), (CHR ''3'', 3), (CHR ''4'', 4),
             (CHR ''5'', 5), (CHR ''6'', 6), (CHR ''7'', 7), (CHR ''8'', 8), (CHR ''9'', 9)]"

definition is_digit :: "char \<Rightarrow> bool" where
  "is_digit c = (case digit_value c of None \<Rightarrow> False | Some d \<Rightarrow> True)"

definition decimal_value :: "string \<Rightarrow> int" where
  "decimal_value Z = foldl (\<lambda>acc c. 10 * acc + (case digit_value c of None \<Rightarrow> 0 | Some d \<Rightarrow> d)) 0 Z"

fun js_negate :: "jsnum \<Rightarrow> jsnum" where
  "js_negate (Finite n) = Finite (- n)"
| "js_negate NaN = NaN"
| "js_negate PosInfinity = NegInfinity"
| "js_negate NegInfinity = PosInfinity"

definition parseInt :: "string \<Rightarrow> jsnum" where
  "parseInt inputString =
     (let S = dropWhile StrWhiteSpaceChar inputString;
          negative = (case S of [] \<Rightarrow> False | c # rest \<Rightarrow> c = CHR ''-'');
          S' = (case S of [] \<Rightarrow> [] | c # rest \<Rightarrow> if c = CHR ''+'' \<or> c = CHR ''-'' then rest else S);
          Z = takeWhile is_digit S'
      in if Z = [] then NaN
         else if negative then js_negate (to_double (decimal_value Z))
         else to_double (decimal_value Z))"

section \<open>The file system and JSON texts\<close>

text \<open>
  The contents of a file are kept as what \<^verbatim>\<open>JSON.parse\<close> makes of them: the value of a
  JSON text, or \<open>Malformed\<close> for a text that is not JSON. White space and the order of
  bytes are not kept, so \<^verbatim>\<open>JSON.stringify\<close> yields the value its output denotes: NaN
  and the infinities are written as null.
  \<open>files\<close> gives the contents of each path, \<open>None\<close> where \<^verbatim>\<open>fs.readFile\<close> rejects
  (no file, or one that cannot be read); \<open>write_fails\<close> tells where \<^verbatim>\<open>fs.writeFile\<close>
  rejects. A rejected write leaves the model's files as they were.
\<close>

datatype contents = Json json | Malformed

record env =
  files :: "string \<Rightarrow> contents option"
  write_fails :: "string \<Rightarrow> bool"

definition readFile :: "env \<Rightarrow> string \<Rightarrow> exn + contents" where
  "readFile e path = (case files e path of None \<Rightarrow> Inl IOError | Some data \<Rightarrow> Inr data)"

definition writeFile :: "env \<Rightarrow> string \<Rightarrow> contents \<Rightarrow> exn + env" where
  "writeFile e path data =
     (if write_fails e path then Inl IOError
      else Inr (e\<lparr>files := (files e)(path := Some data)\<rparr>))"

definition JSON_parse :: "contents \<Rightarrow> exn + json" where
  "JSON_parse data = (case data of Json v \<Rightarrow> Inr v | Malformed \<Rightarrow> Inl SyntaxError)"

fun serialize :: "jsval \<Rightarrow> json"
  and serialize_list :: "jsval list \<Rightarrow> json list"
  and serialize_props :: "(string \<times> jsval) list \<Rightarrow> (string \<times> json) list" where
  "serialize (VNum (Finite n)) = JNum n"
| "serialize (VNum NaN) = JNull"
| "serialize (VNum PosInfinity) = JNull"
| "serialize (VNum NegInfinity) = JNull"
| "serialize (VJson v) = v"
| "serialize (VArr xs) = JArr (serialize_list xs)"
| "serialize (VObj props) = JObj (serialize_props props)"
| "serialize_list [] = []"
| "serialize_list (x # xs) = serialize x # serialize_list xs"
| "serialize_props [] = []"
| "serialize_props (p # ps) = (fst p, serialize (snd p)) # serialize_props ps"

definition JSON_stringify :: "jsval \<Rightarrow> contents" where
  "JSON_stringify v = Json (serialize v)"

section \<open>The handlers\<close>

text \<open>
  Each handler is the function of the files and of its request that it is in \<^verbatim>\<open>app.js\<close>;
  which handler a request reaches is the dispatch of Express and is not part of the
  embedding. A response is the status and what was sent, as text or as JSON.
\<close>

datatype payload = SendText string | SendJson json

datatype response = Response nat payload

definition users_json :: string where
  "users_json = ''./data/users.json''"

definition products_json :: string where
  "products_json = ''./data/products.json''"

definition orders_json :: string where
  "orders_json = ''./data/orders.json''"

subsection \<open>Reading a collection\<close>

text \<open>\<^verbatim>\<open>readJsonFile\<close> catches both failures and returns null for them.\<close>

definition readJsonFile :: "env \<Rightarrow> string \<Rightarrow> json" where
  "readJsonFile e filePath =
     (case readFile e filePath of
        Inl err \<Rightarrow> JNull
      | Inr data \<Rightarrow> (case JSON_parse data of Inl err \<Rightarrow> JNull | Inr v \<Rightarrow> v))"

definition get_users :: "env \<Rightarrow> response" where
  "get_users e =
     (let users = readJsonFile e users_json
      in if truthy users then Response 200 (SendJson users)
         else Response 500 (SendText ''Error reading users data''))"

definition get_prettyusers :: "env \<Rightarrow> response" where
  "get_prettyusers e =
     (let users = readJsonFile e users_json
      in if truthy users then Response 200 (SendJson users)
         else Response 500 (SendText ''Error reading Pretty users data''))"

definition get_api_products :: "env \<Rightarrow> response" where
  "get_api_products e =
     (let products = readJsonFile e products_json
      in if truthy products then Response 200 (SendJson products)
         else Response 500 (SendText ''Error reading products data''))"

definition get_api_orders :: "env \<Rightarrow> response" where
  "get_api_orders e =
     (let orders = readJsonFile e orders_json
      in if truthy orders then Response 200 (SendJson orders)
         else Response 500 (SendText ''Error reading orders data''))"

subsection \<open>One user by id\<close>

text \<open>
  The handler of \<^verbatim>\<open>/api/users/:id\<close> has no \<^verbatim>\<open>try\<close>: an exception leaves it without a
  response (\<open>Inl\<close>). \<^verbatim>\<open>users.find\<close> is a function on arrays only, so a value that is
  true in the condition and no array throws there.
\<close>

definition get_api_users_id :: "env \<Rightarrow> string \<Rightarrow> exn + response" where
  "get_api_users_id e id_param =
     (let userId = parseInt id_param;
          users = readJsonFile e users_json
      in if truthy users then
           (case users of
              JArr us \<Rightarrow>
                (case Array_find
                        (\<lambda>u. case get_prop u ''id'' of
                                Inl err \<Rightarrow> Inl err
                              | Inr v \<Rightarrow> Inr (strict_equals v userId)) us of
                   Inl err \<Rightarrow> Inl err
                 | Inr None \<Rightarrow> Inr (Response 404 (SendText ''User not found''))
                 | Inr (Some user) \<Rightarrow>
                     Inr (if truthy user then Response 200 (SendJson user)
                          else Response 404 (SendText ''User not found'')))
            | v \<Rightarrow> Inl TypeError)
         else Inr (Response 500 (SendText ''Error reading users data'')))"

subsection \<open>Creating a user\<close>

text \<open>
  \<^verbatim>\<open>users.length > 0\<close> on what was parsed: the length of an array or a string, the own
  property \<^verbatim>\<open>length\<close> of an object, made a Number for the comparison, \<^verbatim>\<open>undefined\<close> on a
  boolean or a Number, and a TypeError on null.
\<close>

fun length_positive :: "runtime \<Rightarrow> json \<Rightarrow> exn + bool" where
  "length_positive rt JNull = Inl TypeError"
| "length_positive rt (JArr us) = Inr (length us > 0)"
| "length_positive rt (JStr s) = Inr (length s > 0)"
| "length_positive rt (JObj props) =
     (case ToNumber (to_number rt) (map_of props ''length'') of
        Inl err \<Rightarrow> Inl err
      | Inr x \<Rightarrow> Inr (js_less (Finite 0) x))"
| "length_positive rt v = Inr False"

text \<open>
  \<^verbatim>\<open>users.length > 0 ? Math.max(...users.map(user => user.id)) + 1 : 1\<close>. Only an array has
  the function \<^verbatim>\<open>map\<close>; on any other value with a positive length the call is a
  TypeError.
\<close>

definition nextId :: "runtime \<Rightarrow> json \<Rightarrow> exn + jsnum" where
  "nextId rt users =
     (case length_positive rt users of
        Inl err \<Rightarrow> Inl err
      | Inr positive \<Rightarrow>
          (if positive then
             (case users of
                JArr us \<Rightarrow>
                  (case map_exn (\<lambda>user. get_prop user ''id'') us of
                     Inl err \<Rightarrow> Inl err
                   | Inr ids \<Rightarrow>
                       (case Math_max rt ids of
                          Inl err \<Rightarrow> Inl err
                        | Inr highest \<Rightarrow> Inr (js_add highest (Finite 1))))
              | v \<Rightarrow> Inl TypeError)
           else Inr (Finite 1)))"

text \<open>
  The order of the properties of an object: first the names that are array indices, by
  their value, then the other names as they were written. A name is an array index when
  it is the decimal numeral, without a leading zero, of an integer below \<open>2 ^ 32 - 1\<close>.
\<close>

definition array_index :: "string \<Rightarrow> int option" where
  "array_index k =
     (if list_all is_digit k
         \<and> (case k of [] \<Rightarrow> False | c # rest \<Rightarrow> rest = [] \<or> c \<noteq> CHR ''0'')
         \<and> decimal_value k < 2 ^ 32 - 1
      then Some (decimal_value k) else None)"

text \<open>A name that is already there keeps its place and takes the new value; a new name
  that is no array index goes to the end.\<close>

fun replace_prop :: "string \<Rightarrow> 'v \<Rightarrow> (string \<times> 'v) list \<Rightarrow> (string \<times> 'v) list" where
  "replace_prop k v [] = [(k, v)]"
| "replace_prop k v (p # ps) = (if fst p = k then (k, v) # ps else p # replace_prop k v ps)"

text \<open>A new array index goes before the first name that is no smaller index.\<close>

fun insert_index :: "int \<Rightarrow> string \<Rightarrow> 'v \<Rightarrow> (string \<times> 'v) list \<Rightarrow> (string \<times> 'v) list" where
  "insert_index i k v [] = [(k, v)]"
| "insert_index i k v (p # ps) =
     (case array_index (fst p) of
        None \<Rightarrow> (k, v) # p # ps
      | Some j \<Rightarrow> if j < i then p # insert_index i k v ps else (k, v) # p # ps)"

text \<open>Writing a property of an object literal.\<close>

definition set_prop :: "string \<Rightarrow> 'v \<Rightarrow> (string \<times> 'v) list \<Rightarrow> (string \<times> 'v) list" where
  "set_prop k v ps =
     (case array_index k of
        None \<Rightarrow> replace_prop k v ps
      | Some i \<Rightarrow> if k \<in> set (map fst ps) then replace_prop k v ps else insert_index i k v ps)"

text \<open>The name of an array index: its decimal digits.\<close>

fun string_of_nat :: "nat \<Rightarrow> string" where
  "string_of_nat n =
     (if n < 10 then [char_of (48 + n)]
      else string_of_nat (n div 10) @ [char_of (48 + n mod 10)])"

declare string_of_nat.simps [simp del]

text \<open>What \<^verbatim>\<open>...req.body\<close> copies: the own enumerable properties, those of an array and
  of a string being the indices.\<close>

fun own_props :: "json \<Rightarrow> (string \<times> json) list" where
  "own_props (JObj props) = props"
| "own_props (JArr xs) = zip (map string_of_nat [0..<length xs]) xs"
| "own_props (JStr s) = zip (map string_of_nat [0..<length s]) (map (\<lambda>c. JStr [c]) s)"
| "own_props v = []"

definition defaultRole :: string where
  "defaultRole = ''peasant''"

text \<open>
  \<^verbatim>\<open>{ id: nextId, ...req.body, role: req.body.role || defaultRole }\<close>: the three parts are
  written in this order, each over what is there. \<^verbatim>\<open>req.body\<close> is the JSON value that
  \<^verbatim>\<open>express.json()\<close> parsed from the request.
\<close>

definition newUser :: "jsnum \<Rightarrow> json \<Rightarrow> exn + (string \<times> jsval) list" where
  "newUser next_id body =
     (let with_id = [(''id'', VNum next_id)];
          with_body = foldl (\<lambda>obj p. set_prop (fst p) (VJson (snd p)) obj) with_id (own_props body)
      in case get_prop body ''role'' of
           Inl err \<Rightarrow> Inl err
         | Inr role \<Rightarrow> Inr (set_prop ''role'' (VJson (js_or role (JStr defaultRole))) with_body))"

text \<open>The body of the \<^verbatim>\<open>try\<close> of \<^verbatim>\<open>POST /users\<close>, up to the write.\<close>

definition create_user :: "runtime \<Rightarrow> env \<Rightarrow> json \<Rightarrow> exn + ((string \<times> jsval) list \<times> env)" where
  "create_user rt e body =
     (case readFile e users_json of
        Inl err \<Rightarrow> Inl err
      | Inr data \<Rightarrow>
     (case JSON_parse data of
        Inl err \<Rightarrow> Inl err
      | Inr users \<Rightarrow>
     (case nextId rt users of
        Inl err \<Rightarrow> Inl err
      | Inr next_id \<Rightarrow>
     (case newUser next_id body of
        Inl err \<Rightarrow> Inl err
      | Inr new_user \<Rightarrow>
     (case users of
        JArr us \<Rightarrow>
          (case writeFile e users_json
                  (JSON_stringify (VArr (map VJson us @ [VObj new_user]))) of
             Inl err \<Rightarrow> Inl err
           | Inr e' \<Rightarrow> Inr (new_user, e'))
      | v \<Rightarrow> Inl TypeError)))))"

text \<open>The handler: 201 with the new user after the write, 500 from the \<^verbatim>\<open>catch\<close>.\<close>

definition post_users :: "runtime \<Rightarrow> env \<Rightarrow> json \<Rightarrow> response \<times> env" where
  "post_users rt e body =
     (case create_user rt e body of
        Inl err \<Rightarrow> (Response 500 (SendText ''Error processing request''), e)
      | Inr (new_user, e') \<Rightarrow> (Response 201 (SendJson (serialize (VObj new_user))), e'))"

section \<open>Collections, histories and example states\<close>

text \<open>A record is an object; it carries the integer id \<open>n\<close> when its \<^verbatim>\<open>id\<close> is that
  Number.\<close>

definition is_record :: "json \<Rightarrow> bool" where
  "is_record v = (case v of JObj props \<Rightarrow> True | w \<Rightarrow> False)"

definition has_id :: "json \<Rightarrow> int \<Rightarrow> bool" where
  "has_id u n = (get_prop u ''id'' = Inr (Some (JNum n)))"

text \<open>The ids of a collection are pairwise distinct: no two records give the same
  result for \<^verbatim>\<open>id\<close>.\<close>

definition distinct_ids :: "json list \<Rightarrow> bool" where
  "distinct_ids us = distinct (map (\<lambda>u. get_prop u ''id'') us)"

text \<open>A sequential history of \<^verbatim>\<open>POST /users\<close>: each request runs to its response on the
  files the one before left.\<close>

fun create_history :: "runtime \<Rightarrow> env \<Rightarrow> json list \<Rightarrow> env" where
  "create_history rt e [] = e"
| "create_history rt e (body # bodies) =
     create_history rt (snd (post_users rt e body)) bodies"

text \<open>The decimal numeral of an integer, as a client writes an id into the path.\<close>

definition decimal_numeral :: "int \<Rightarrow> string" where
  "decimal_numeral n =
     (if n < 0 then CHR ''-'' # string_of_nat (nat (- n)) else string_of_nat (nat n))"

text \<open>
  States for the examples: a disk whose only file is \<^verbatim>\<open>users.json\<close>, writable or not,
  and an engine that passes 120000 arguments, with a coercion for collections whose ids
  are Numbers, where it is never asked.
\<close>

definition disk :: "contents \<Rightarrow> env" where
  "disk data =
     \<lparr>files = (\<lambda>path. if path = users_json then Some data else None),
      write_fails = (\<lambda>path. False)\<rparr>"

definition read_only_disk :: "contents \<Rightarrow> env" where
  "read_only_disk data =
     \<lparr>files = (\<lambda>path. if path = users_json then Some data else None),
      write_fails = (\<lambda>path. True)\<rparr>"

definition nan_coercion :: coercion where
  "nan_coercion v = Inr NaN"

definition engine :: runtime where
  "engine = \<lparr>to_number = nan_coercion, max_arguments = 120000\<rparr>"

section \<open>Numbers below \<open>2 ^ 53\<close>\<close>

lemma bit_length_le: "n < 2 ^ k \<Longrightarrow> bit_length n \<le> k"
proof (induction k arbitrary: n)
  case 0
  then show ?case by (simp add: bit_length.simps [of n])
next
  case (Suc k)
  have "n div 2 < 2 ^ k" using Suc.prems by simp
  then have "bit_length (n div 2) \<le> k" by (rule Suc.IH)
  then show ?case by (simp add: bit_length.simps [of n])
qed

lemma to_double_small:
  assumes "\<bar>n\<bar> < 2 ^ 53"
  shows "to_double n = Finite n"
proof -
  have e: "bit_length \<bar>n\<bar> - 53 = 0"
    using bit_length_le [OF assms] by simp
  have "(2::int) ^ 53 \<le> 2 ^ 1024" by (rule power_increasing) simp_all
  with assms have big: "\<not> (2::int) ^ 1024 \<le> \<bar>n\<bar>" by (simp only: not_le)
  have "to_double n =
      (if (2::int) ^ 1024 \<le> \<bar>n\<bar> then (if n < 0 then NegInfinity else PosInfinity)
       else Finite (if n < 0 then - \<bar>n\<bar> else \<bar>n\<bar>))"
    unfolding to_double_def Let_def e
    by (simp only: power_0 div_by_1 mod_by_1 mult_zero_right less_numeral_extra(3)
          zero_neq_one [symmetric] zero_neq_one simp_thms if_False mult_1_right
          not_one_less_zero)
  also have "\<dots> = Finite (if n < 0 then - \<bar>n\<bar> else \<bar>n\<bar>)"
    by (simp only: big if_False)
  also have "\<dots> = Finite n" by (simp add: abs_if)
  finally show ?thesis .
qed

lemma to_double_2_53: "to_double (2 ^ 53) = Finite (2 ^ 53)"
  by code_simp

lemma js_add_one_safe:
  assumes "\<bar>n\<bar> < 2 ^ 53"
  shows "js_add (Finite n) (Finite 1) = Finite (n + 1)"
proof (cases "n + 1 = 2 ^ 53")
  case True
  have "to_double (n + 1) = Finite (n + 1)"
    by (simp only: True to_double_2_53)
  then show ?thesis by (simp only: js_add.simps)
next
  case False
  with assms have "\<bar>n + 1\<bar> < 2 ^ 53" by linarith
  then show ?thesis by (simp add: to_double_small)
qed

section \<open>Math.max over integer ids\<close>

lemma Math_max_from_Finite:
  "Math_max_from (Finite h) (map Finite ns) = Finite (Max (insert h (set ns)))"
proof (induction ns arbitrary: h)
  case Nil
  then show ?case by simp
next
  case (Cons n ns)
  have "Max (insert h (insert n (set ns))) = Max (insert (max h n) (set ns))"
    by (metis List.finite_set Max_insert Max_singleton finite.insertI insert_not_empty
        max.assoc)
  then show ?case using Cons.IH [of "if h < n then n else h"]
    by (auto simp: max_def)
qed

lemma Math_max_from_ints:
  "ns \<noteq> [] \<Longrightarrow> Math_max_from NegInfinity (map Finite ns) = Finite (Max (set ns))"
  by (cases ns) (simp_all add: Math_max_from_Finite)

lemma map_exn_ids:
  "list_all2 has_id us ns \<Longrightarrow>
   map_exn (\<lambda>user. get_prop user ''id'') us = Inr (map (\<lambda>n. Some (JNum n)) ns)"
  by (induction us ns rule: list_all2_induct) (simp_all add: has_id_def)

lemma map_exn_ToNumber_ints:
  "map_exn (ToNumber coerce) (map (\<lambda>n. Some (JNum n)) ns) = Inr (map Finite ns)"
  by (induction ns) simp_all

text \<open>On integer ids below \<open>2 ^ 53\<close> the next id is exact, when the ids are no more
  than one call passes; with more ids the spread throws.\<close>

lemma nextId_safe_ints:
  assumes ids: "list_all2 has_id us ns"
    and safe: "\<forall>n\<in>set ns. \<bar>n\<bar> < 2 ^ 53"
  shows "nextId rt (JArr us) =
           (if us \<noteq> [] \<and> max_arguments rt < int (length us)
            then Inl RangeError
            else Inr (Finite (if ns = [] then 1 else Max (set ns) + 1)))"
proof (cases "ns = []")
  case True
  with ids have "us = []" by simp
  with True show ?thesis by (simp add: nextId_def)
next
  case False
  with ids have us: "us \<noteq> []" by auto
  from ids have len: "length ns = length us" by (simp add: list_all2_lengthD)
  have "Max (set ns) \<in> set ns" using False by simp
  with safe have "\<bar>Max (set ns)\<bar> < 2 ^ 53" by blast
  then have "js_add (Finite (Max (set ns))) (Finite 1) = Finite (Max (set ns) + 1)"
    by (rule js_add_one_safe)
  with us False len show ?thesis
    by (simp add: nextId_def Math_max_def map_exn_ids [OF ids] map_exn_ToNumber_ints
        Math_max_from_ints not_less)
qed

section \<open>The outcome of a create\<close>

lemma serialize_list_map_VJson: "serialize_list (map VJson us) = us"
  by (induction us) simp_all

lemma serialize_list_append:
  "serialize_list (xs @ ys) = serialize_list xs @ serialize_list ys"
  by (induction xs) simp_all

lemma map_of_replace_prop:
  "map_of (replace_prop k v ps) k' = (if k' = k then Some v else map_of ps k')"
  by (induction ps) auto

lemma map_of_insert_index:
  "k \<notin> set (map fst ps) \<Longrightarrow>
   map_of (insert_index i k v ps) k' = (if k' = k then Some v else map_of ps k')"
  by (induction ps) (auto split: option.splits)

text \<open>Wherever the name goes, the object then has the new value under it and every
  other property as before.\<close>

lemma map_of_set_prop:
  "map_of (set_prop k v ps) k' = (if k' = k then Some v else map_of ps k')"
  by (simp add: set_prop_def map_of_replace_prop map_of_insert_index split: option.splits)

lemma map_of_serialize_props:
  "map_of (serialize_props ps) k = map_option serialize (map_of ps k)"
  by (induction ps) auto

text \<open>The \<^verbatim>\<open>try\<close> block ends without an exception exactly when the file holds an
  array, the id and the object could be computed and the write went through.\<close>

lemma create_user_Inr:
  "create_user rt e body = Inr (new_user, e') \<longleftrightarrow>
     (\<exists>us next_id. files e users_json = Some (Json (JArr us))
        \<and> nextId rt (JArr us) = Inr next_id
        \<and> newUser next_id body = Inr new_user
        \<and> \<not> write_fails e users_json
        \<and> e' = e\<lparr>files := (files e)(users_json :=
                   Some (Json (JArr (us @ [serialize (VObj new_user)]))))\<rparr>)"
proof (cases "files e users_json")
  case None
  then show ?thesis by (simp add: create_user_def readFile_def)
next
  case (Some data)
  show ?thesis
  proof (cases data)
    case Malformed
    with Some show ?thesis by (simp add: create_user_def readFile_def JSON_parse_def)
  next
    case (Json users)
    show ?thesis
    proof (cases "\<exists>us. users = JArr us")
      case False
      with Some Json show ?thesis
        by (cases users)
          (auto simp: create_user_def readFile_def JSON_parse_def split: sum.splits)
    next
      case True
      then obtain us where us: "users = JArr us" by blast
      with Some Json show ?thesis
        by (auto simp: create_user_def readFile_def JSON_parse_def writeFile_def
            JSON_stringify_def serialize_list_append serialize_list_map_VJson
            split: sum.splits)
    qed
  qed
qed

lemma post_users_201:
  assumes "post_users rt e body = (Response 201 sent, e')"
  shows "\<exists>us next_id new_user. files e users_json = Some (Json (JArr us))
        \<and> nextId rt (JArr us) = Inr next_id
        \<and> newUser next_id body = Inr new_user
        \<and> \<not> write_fails e users_json
        \<and> sent = SendJson (serialize (VObj new_user))
        \<and> e' = e\<lparr>files := (files e)(users_json :=
                   Some (Json (JArr (us @ [serialize (VObj new_user)]))))\<rparr>"
proof (cases "create_user rt e body")
  case (Inl err)
  with assms show ?thesis by (simp add: post_users_def)
next
  case (Inr res)
  obtain new_user e2 where res: "res = (new_user, e2)" by (cases res)
  with Inr assms have "sent = SendJson (serialize (VObj new_user))" and "e2 = e'"
    by (simp_all add: post_users_def)
  with Inr res show ?thesis
    using create_user_Inr [of rt e body new_user e'] by auto
qed

lemma foldl_set_prop_other:
  "k \<notin> fst ` set ps \<Longrightarrow>
   map_of (foldl (\<lambda>obj p. set_prop (fst p) (VJson (snd p)) obj) acc ps) k = map_of acc k"
  by (induction ps arbitrary: acc) (auto simp: map_of_set_prop)

lemma foldl_set_prop_key:
  "distinct (map fst ps) \<Longrightarrow> map_of ps k = Some v \<Longrightarrow>
   map_of (foldl (\<lambda>obj p. set_prop (fst p) (VJson (snd p)) obj) acc ps) k = Some (VJson v)"
proof (induction ps arbitrary: acc)
  case Nil
  then show ?case by simp
next
  case (Cons p ps)
  show ?case
  proof (cases "fst p = k")
    case True
    with Cons.prems have "k \<notin> fst ` set ps" and "snd p = v" by auto
    with True show ?thesis by (simp add: foldl_set_prop_other map_of_set_prop)
  next
    case False
    with Cons.prems have "distinct (map fst ps)" and "map_of ps k = Some v" by auto
    then show ?thesis by (simp add: Cons.IH)
  qed
qed

text \<open>A body without a property \<^verbatim>\<open>id\<close> leaves the id of the literal in place.\<close>

lemma newUser_has_id:
  assumes "newUser (Finite m) body = Inr new_user"
    and "''id'' \<notin> fst ` set (own_props body)"
  shows "has_id (serialize (VObj new_user)) m"
proof -
  from assms(1) obtain role where
    nu: "new_user = set_prop ''role'' (VJson (js_or role (JStr defaultRole)))
           (foldl (\<lambda>obj p. set_prop (fst p) (VJson (snd p)) obj) [(''id'', VNum (Finite m))]
              (own_props body))"
    by (auto simp: newUser_def Let_def split: sum.splits)
  have "map_of new_user ''id'' = Some (VNum (Finite m))"
    unfolding nu using assms(2) by (simp add: map_of_set_prop foldl_set_prop_other)
  then show ?thesis by (simp add: has_id_def map_of_serialize_props)
qed

section \<open>The id of a new record\<close>

text \<open>An engine that passes one argument only: on two records the spread throws, and
  the create is answered 500 with the file as it was.\<close>

lemma example_of_too_many_arguments:
  "nextId (engine\<lparr>max_arguments := 1\<rparr>) (JArr [JObj [(''id'', JNum 1)], JObj [(''id'', JNum 2)]])
     = Inl RangeError
   \<and> fst (post_users (engine\<lparr>max_arguments := 1\<rparr>)
            (disk (Json (JArr [JObj [(''id'', JNum 1)], JObj [(''id'', JNum 2)]])))
            (JObj [(''name'', JStr ''Ann'')]))
     = Response 500 (SendText ''Error processing request'')"
  by code_simp

text \<open>
  C2, amended: for a collection whose records all carry integer ids below \<open>2 ^ 53\<close>
  in magnitude (the integers a Number holds exactly) and which has no more records than
  the engine passes as the arguments of one call, the next id that the handler computes
  is 1 for the empty collection and the greatest id plus one otherwise; with more
  records \<^verbatim>\<open>Math.max(...)\<close> throws a RangeError and no id is computed. The id computed is
  the id of the record that a create answers with, when the body has no property
  \<^verbatim>\<open>id\<close> of its own.
\<close>

theorem nextId_max_plus_one:
  assumes "list_all2 has_id us ns"
    and "\<forall>n\<in>set ns. \<bar>n\<bar> < 2 ^ 53"
  shows "nextId rt (JArr us) =
           (if us \<noteq> [] \<and> max_arguments rt < int (length us)
            then Inl RangeError
            else Inr (Finite (if ns = [] then 1 else Max (set ns) + 1)))
         \<and> (\<forall>e body r e'.
               files e users_json = Some (Json (JArr us))
               \<and> ''id'' \<notin> fst ` set (own_props body)
               \<and> post_users rt e body = (Response 201 (SendJson r), e')
               \<longrightarrow> has_id r (if ns = [] then 1 else Max (set ns) + 1))"
proof (intro conjI allI impI)
  show nid: "nextId rt (JArr us) =
           (if us \<noteq> [] \<and> max_arguments rt < int (length us)
            then Inl RangeError
            else Inr (Finite (if ns = [] then 1 else Max (set ns) + 1)))"
    using assms by (rule nextId_safe_ints)
  fix e body r e'
  assume a: "files e users_json = Some (Json (JArr us))
               \<and> ''id'' \<notin> fst ` set (own_props body)
               \<and> post_users rt e body = (Response 201 (SendJson r), e')"
  then have "post_users rt e body = (Response 201 (SendJson r), e')" by simp
  from post_users_201 [OF this] a nid obtain new_user
    where "newUser (Finite (if ns = [] then 1 else Max (set ns) + 1)) body = Inr new_user"
      and "r = serialize (VObj new_user)"
    by (auto split: if_splits)
  with a show "has_id r (if ns = [] then 1 else Max (set ns) + 1)"
    using newUser_has_id by blast
qed

theorem nextId_max_plus_one_witness:
  "list_all2 has_id
     [JObj [(''id'', JNum 3)], JObj [(''id'', JNum 7), (''name'', JStr ''Ann'')]] [3, 7]
   \<and> \<bar>3 :: int\<bar> < 2 ^ 53 \<and> \<bar>7 :: int\<bar> < 2 ^ 53
   \<and> int (length [JObj [(''id'', JNum 3)], JObj [(''id'', JNum 7), (''name'', JStr ''Ann'')]])
       \<le> max_arguments engine
   \<and> nextId engine
         (JArr [JObj [(''id'', JNum 3)], JObj [(''id'', JNum 7), (''name'', JStr ''Ann'')]])
       = Inr (Finite 8)"
proof -
  have h1: "list_all2 has_id
      [JObj [(''id'', JNum 3)], JObj [(''id'', JNum 7), (''name'', JStr ''Ann'')]] [3, 7]"
    by (simp add: has_id_def)
  have h2: "\<forall>n\<in>set [3, 7 :: int]. \<bar>n\<bar> < 2 ^ 53" by simp
  from nextId_max_plus_one [OF h1 h2, of engine] h1 h2 show ?thesis
    by (simp add: engine_def)
qed

text \<open>
  C2 as stated fails where a Number stops being exact: the only id is \<open>2 ^ 53\<close>, an
  integer, and \<^verbatim>\<open>Math.max(...) + 1\<close> rounds back to \<open>2 ^ 53\<close>.
\<close>

theorem nextId_counterexample:
  "has_id (JObj [(''id'', JNum 9007199254740992)]) 9007199254740992
   \<and> nextId engine (JArr [JObj [(''id'', JNum 9007199254740992)]])
       = Inr (Finite 9007199254740992)
   \<and> nextId engine (JArr [JObj [(''id'', JNum 9007199254740992)]])
       \<noteq> Inr (Finite (Max (set [9007199254740992]) + 1))"
  by code_simp

section \<open>The fields of a new record\<close>

text \<open>A property of the body stays in the new record, the property \<^verbatim>\<open>id\<close> too: the
  spread writes it over the id of the literal.\<close>

lemma caller_id_wins:
  assumes "post_users rt e (JObj props) = (Response 201 (SendJson r), e')"
    and "distinct (map fst props)"
    and "map_of props ''id'' = Some v"
  shows "get_prop r ''id'' = Inr (Some v)"
proof -
  from post_users_201 [OF assms(1)] obtain next_id new_user
    where nu: "newUser next_id (JObj props) = Inr new_user"
      and r: "SendJson r = SendJson (serialize (VObj new_user))"
    by blast
  from nu have "map_of new_user ''id'' = Some (VJson v)"
    using foldl_set_prop_key [OF assms(2) assms(3)]
    by (auto simp: newUser_def Let_def map_of_set_prop)
  with r show ?thesis by (simp add: map_of_serialize_props)
qed

text \<open>The request of the source's own example, on the empty collection.\<close>

lemma example_of_the_source:
  "fst (post_users engine (disk (Json (JArr [])))
          (JObj [(''name'', JStr ''John Doe''), (''email'', JStr ''john@example.com'')]))
     = Response 201 (SendJson (JObj [(''id'', JNum 1), (''name'', JStr ''John Doe''),
          (''email'', JStr ''john@example.com''), (''role'', JStr ''peasant'')]))
   \<and> files (snd (post_users engine (disk (Json (JArr [])))
          (JObj [(''name'', JStr ''John Doe''), (''email'', JStr ''john@example.com'')])))
         users_json
     = Some (Json (JArr [JObj [(''id'', JNum 1), (''name'', JStr ''John Doe''),
          (''email'', JStr ''john@example.com''), (''role'', JStr ''peasant'')]]))"
  by code_simp

text \<open>A body whose names are array indices: the new record lists them before \<^verbatim>\<open>id\<close>.\<close>

lemma example_of_index_names:
  "fst (post_users engine (disk (Json (JArr []))) (JArr [JStr ''a'', JStr ''b'']))
     = Response 201 (SendJson (JObj [(''0'', JStr ''a''), (''1'', JStr ''b''),
          (''id'', JNum 1), (''role'', JStr ''peasant'')]))"
  by code_simp

text \<open>
  C1: the new record should carry \<^verbatim>\<open>nextId\<close> even when the caller's fields hold an id.
  The object literal writes \<^verbatim>\<open>id: nextId\<close> first and the caller's fields over it, so on
  the empty collection, where \<^verbatim>\<open>nextId\<close> is 1, a body with \<^verbatim>\<open>id: 99\<close> is answered and
  stored with id 99.
\<close>

theorem caller_id_replaces_nextId:
  "nextId engine (JArr []) = Inr (Finite 1)
   \<and> fst (post_users engine (disk (Json (JArr [])))
            (JObj [(''id'', JNum 99), (''name'', JStr ''Eve'')]))
       = Response 201 (SendJson (JObj [(''id'', JNum 99), (''name'', JStr ''Eve''),
                                        (''role'', JStr ''peasant'')]))
   \<and> files (snd (post_users engine (disk (Json (JArr [])))
                   (JObj [(''id'', JNum 99), (''name'', JStr ''Eve'')]))) users_json
       = Some (Json (JArr [JObj [(''id'', JNum 99), (''name'', JStr ''Eve''),
                                 (''role'', JStr ''peasant'')]]))"
  by code_simp

text \<open>
  C3, amended: the new record keeps the caller's role when that role is a true value,
  and has the role \<^verbatim>\<open>"peasant"\<close> when the caller's fields have no role or a role that is
  false in a condition (null, false, 0 or the empty string).
\<close>

theorem role_default_on_falsy:
  assumes "post_users rt e (JObj props) = (Response 201 (SendJson r), e')"
  shows "get_prop r ''role'' =
           Inr (Some (case map_of props ''role'' of
                        None \<Rightarrow> JStr ''peasant''
                      | Some v \<Rightarrow> if truthy v then v else JStr ''peasant''))"
proof -
  from post_users_201 [OF assms] obtain next_id new_user
    where nu: "newUser next_id (JObj props) = Inr new_user"
      and r: "SendJson r = SendJson (serialize (VObj new_user))"
    by blast
  from nu have "map_of new_user ''role'' =
      Some (VJson (js_or (map_of props ''role'') (JStr defaultRole)))"
    by (auto simp: newUser_def Let_def map_of_set_prop)
  with r have "get_prop r ''role'' = Inr (Some (js_or (map_of props ''role'') (JStr defaultRole)))"
    by (simp add: map_of_serialize_props)
  then show ?thesis
    by (cases "map_of props ''role''") (simp_all add: defaultRole_def)
qed

theorem role_default_on_falsy_witness:
  "fst (post_users engine (disk (Json (JArr []))) (JObj [(''role'', JStr ''admin'')]))
     = Response 201 (SendJson (JObj [(''id'', JNum 1), (''role'', JStr ''admin'')]))
   \<and> get_prop (JObj [(''id'', JNum 1), (''role'', JStr ''admin'')]) ''role''
     = Inr (Some (JStr ''admin''))"
proof -
  have h: "fst (post_users engine (disk (Json (JArr []))) (JObj [(''role'', JStr ''admin'')]))
     = Response 201 (SendJson (JObj [(''id'', JNum 1), (''role'', JStr ''admin'')]))"
    by code_simp
  then have "post_users engine (disk (Json (JArr []))) (JObj [(''role'', JStr ''admin'')])
     = (Response 201 (SendJson (JObj [(''id'', JNum 1), (''role'', JStr ''admin'')])),
        snd (post_users engine (disk (Json (JArr []))) (JObj [(''role'', JStr ''admin'')])))"
    by (simp add: prod_eq_iff)
  from role_default_on_falsy [OF this] h show ?thesis by simp
qed

text \<open>
  C3 as stated fails on a role that is there and false in a condition: the empty string
  is replaced by the default.
\<close>

theorem role_default_counterexample:
  "map_of [(''role'', JStr []), (''name'', JStr ''Ann'')] ''role'' = Some (JStr [])
   \<and> fst (post_users engine (disk (Json (JArr [])))
            (JObj [(''role'', JStr []), (''name'', JStr ''Ann'')]))
       = Response 201 (SendJson (JObj [(''id'', JNum 1), (''role'', JStr ''peasant''),
                                        (''name'', JStr ''Ann'')]))"
  by code_simp

section \<open>A write that fails\<close>

text \<open>
  C7: when the write of \<^verbatim>\<open>users.json\<close> fails, the create is answered 500 and not 201,
  whatever the files, the body and the engine are; the new record is not sent.
\<close>

theorem save_failure_is_500:
  assumes "write_fails e users_json"
  shows "fst (post_users rt e body) = Response 500 (SendText ''Error processing request'')"
  using assms
  by (simp add: post_users_def create_user_def writeFile_def split: sum.splits json.splits)

theorem save_failure_is_500_witness:
  "write_fails (read_only_disk (Json (JArr []))) users_json
   \<and> fst (post_users engine (read_only_disk (Json (JArr [])))
            (JObj [(''name'', JStr ''Ann'')]))
       = Response 500 (SendText ''Error processing request'')"
proof -
  have h: "write_fails (read_only_disk (Json (JArr []))) users_json"
    by (simp add: read_only_disk_def)
  from save_failure_is_500 [OF h] h show ?thesis by simp
qed

section \<open>Reading a collection\<close>

text \<open>
  C5, amended: \<^verbatim>\<open>readJsonFile\<close> returns null exactly when the file is missing or
  unreadable, is not JSON, or holds the JSON text null; \<^verbatim>\<open>GET /users\<close> answers 500
  exactly when the file is missing or unreadable, is not JSON, or holds a JSON value that
  is false in a condition (null, false, 0 or the empty string). A file that holds any
  other JSON value, an array in particular, the empty one too, is answered 200 with the
  parsed value, and only a file that holds the empty array is answered with the empty
  array.
\<close>

theorem getAll_outcome:
  "(readJsonFile e path = JNull \<longleftrightarrow>
      files e path = None \<or> files e path = Some Malformed \<or> files e path = Some (Json JNull))
   \<and> (get_users e = Response 500 (SendText ''Error reading users data'') \<longleftrightarrow>
        files e users_json = None \<or> files e users_json = Some Malformed
        \<or> (\<exists>v. files e users_json = Some (Json v) \<and> \<not> truthy v))
   \<and> (\<forall>v. files e users_json = Some (Json v) \<and> truthy v \<longrightarrow>
        get_users e = Response 200 (SendJson v))
   \<and> (\<forall>us. files e users_json = Some (Json (JArr us)) \<longrightarrow>
        get_users e = Response 200 (SendJson (JArr us)))
   \<and> (get_users e = Response 200 (SendJson (JArr [])) \<longrightarrow>
        files e users_json = Some (Json (JArr [])))"
proof -
  have load: "readJsonFile e p = (case files e p of Some (Json v) \<Rightarrow> v | other \<Rightarrow> JNull)" for p
    by (simp add: readJsonFile_def readFile_def JSON_parse_def split: option.splits contents.splits)
  show ?thesis
    by (auto simp: get_users_def load Let_def split: option.splits contents.splits)
qed

theorem getAll_outcome_witness:
  "files (disk (Json (JArr []))) users_json = Some (Json (JArr []))
   \<and> get_users (disk (Json (JArr []))) = Response 200 (SendJson (JArr []))"
proof -
  have h: "files (disk (Json (JArr []))) users_json = Some (Json (JArr []))"
    by (simp add: disk_def)
  from getAll_outcome [of "disk (Json (JArr []))" users_json]
  have "\<forall>us. files (disk (Json (JArr []))) users_json = Some (Json (JArr us)) \<longrightarrow>
        get_users (disk (Json (JArr []))) = Response 200 (SendJson (JArr us))"
    by blast
  with h show ?thesis by blast
qed

text \<open>
  C5 as stated fails on files that are valid JSON and false in a condition: for the text
  \<^verbatim>\<open>0\<close> the parsed value is returned by \<^verbatim>\<open>readJsonFile\<close> and \<^verbatim>\<open>GET /users\<close> answers 500,
  and for the text \<^verbatim>\<open>null\<close> the parsed value is the value that reports a failure.
\<close>

theorem getAll_counterexample:
  "JSON_parse (Json (JNum 0)) = Inr (JNum 0)
   \<and> readJsonFile (disk (Json (JNum 0))) users_json = JNum 0
   \<and> get_users (disk (Json (JNum 0))) = Response 500 (SendText ''Error reading users data'')
   \<and> JSON_parse (Json JNull) = Inr JNull
   \<and> get_users (disk (Json JNull)) = Response 500 (SendText ''Error reading users data'')"
  by code_simp

section \<open>One user by id\<close>

lemma strict_equals_Finite: "strict_equals v (Finite n) = (v = Some (JNum n))"
  by (cases "(v, Finite n)" rule: strict_equals.cases) auto

lemma strict_equals_NaN: "strict_equals v NaN = False"
  by (cases "(v, NaN)" rule: strict_equals.cases) auto

lemma get_prop_record: "is_record u \<Longrightarrow> \<exists>v. get_prop u k = Inr v"
  by (cases u) (simp_all add: is_record_def)

lemma truthy_record: "is_record u \<Longrightarrow> truthy u"
  by (cases u) (simp_all add: is_record_def)

text \<open>On records the callback of \<^verbatim>\<open>find\<close> never throws, and the scan is the first match.\<close>

lemma Array_find_records:
  assumes "list_all is_record us"
  shows "Array_find (\<lambda>u. case get_prop u ''id'' of
                            Inl err \<Rightarrow> Inl err
                          | Inr v \<Rightarrow> Inr (strict_equals v (Finite n))) us
         = Inr (find (\<lambda>u. has_id u n) us)"
  using assms
proof (induction us)
  case Nil
  then show ?case by simp
next
  case (Cons u us)
  then have "is_record u" by simp
  then obtain v where v: "get_prop u ''id'' = Inr v" using get_prop_record by blast
  with Cons show ?case by (simp add: has_id_def strict_equals_Finite)
qed

lemma Array_find_NaN:
  assumes "list_all is_record us"
  shows "Array_find (\<lambda>u. case get_prop u ''id'' of
                            Inl err \<Rightarrow> Inl err
                          | Inr v \<Rightarrow> Inr (strict_equals v NaN)) us
         = Inr None"
  using assms
proof (induction us)
  case Nil
  then show ?case by simp
next
  case (Cons u us)
  then have "is_record u" by simp
  then obtain v where v: "get_prop u ''id'' = Inr v" using get_prop_record by blast
  with Cons show ?case by (simp add: strict_equals_NaN)
qed

lemma find_record: "list_all is_record us \<Longrightarrow> find P us = Some u \<Longrightarrow> is_record u"
  by (induction us) (auto split: if_splits)

section \<open>The id in the path\<close>

text \<open>\<^verbatim>\<open>parseInt\<close> reads the decimal numeral of an integer back, up to the rounding of a
  Number: below \<open>2 ^ 53\<close> in magnitude it yields the integer itself.\<close>

lemma char_of_digits:
  "char_of (48 :: nat) = CHR ''0''" "char_of (49 :: nat) = CHR ''1''"
  "char_of (50 :: nat) = CHR ''2''" "char_of (51 :: nat) = CHR ''3''"
  "char_of (52 :: nat) = CHR ''4''" "char_of (53 :: nat) = CHR ''5''"
  "char_of (54 :: nat) = CHR ''6''" "char_of (55 :: nat) = CHR ''7''"
  "char_of (56 :: nat) = CHR ''8''" "char_of (57 :: nat) = CHR ''9''"
  by code_simp+

lemma digit_value_char_of:
  assumes "d < 10"
  shows "digit_value (char_of (48 + d)) = Some (int d)"
proof -
  from assms have "d \<in> {0, 1, 2, 3, 4, 5, 6, 7, 8, 9}" by auto
  then show ?thesis by (auto simp: digit_value_def char_of_digits)
qed

lemma is_digit_cases: "is_digit c \<longleftrightarrow> c \<in> set ''0123456789''"
  by (auto simp: is_digit_def digit_value_def split: option.splits if_splits)

lemma digit_not_space: "is_digit c \<Longrightarrow> \<not> StrWhiteSpaceChar c"
  by (auto simp: is_digit_cases StrWhiteSpaceChar_def)

lemma digit_not_sign: "is_digit c \<Longrightarrow> c \<noteq> CHR ''+'' \<and> c \<noteq> CHR ''-''"
  by (auto simp: is_digit_cases)

lemma string_of_nat_digits: "string_of_nat n \<noteq> [] \<and> list_all is_digit (string_of_nat n)"
proof (induction n rule: string_of_nat.induct)
  case (1 n)
  show ?case
  proof (cases "n < 10")
    case True
    then show ?thesis
      by (simp add: string_of_nat.simps [of n] is_digit_def digit_value_char_of)
  next
    case False
    have "n mod 10 < 10" by simp
    then have "is_digit (char_of (48 + n mod 10))"
      by (simp add: is_digit_def digit_value_char_of)
    with False 1 show ?thesis by (simp add: string_of_nat.simps [of n])
  qed
qed

lemma decimal_value_snoc:
  "decimal_value (Z @ [c]) =
     10 * decimal_value Z + (case digit_value c of None \<Rightarrow> 0 | Some d \<Rightarrow> d)"
  by (simp add: decimal_value_def)

lemma decimal_value_string_of_nat: "decimal_value (string_of_nat n) = int n"
proof (induction n rule: string_of_nat.induct)
  case (1 n)
  show ?case
  proof (cases "n < 10")
    case True
    then show ?thesis
      by (simp add: string_of_nat.simps [of n] decimal_value_def digit_value_char_of)
  next
    case False
    have "n mod 10 < 10" by simp
    then have "digit_value (char_of (48 + n mod 10)) = Some (int (n mod 10))"
      by (rule digit_value_char_of)
    with False 1 show ?thesis
      by (simp add: string_of_nat.simps [of n] decimal_value_snoc zmod_int zdiv_int)
  qed
qed

lemma parseInt_digits:
  assumes "Z \<noteq> []" and "list_all is_digit Z"
  shows "parseInt Z = to_double (decimal_value Z)"
    and "parseInt (CHR ''-'' # Z) = js_negate (to_double (decimal_value Z))"
proof -
  from assms obtain c rest where Z: "Z = c # rest" by (cases Z) auto
  with assms have c: "is_digit c" by simp
  have all: "takeWhile is_digit Z = Z" using assms(2) by (simp add: list_all_iff)
  then have rest: "takeWhile is_digit rest = rest" using c by (simp add: Z)
  show "parseInt Z = to_double (decimal_value Z)"
    using c digit_not_space [OF c] digit_not_sign [OF c]
    by (simp add: parseInt_def Z rest)
  have "\<not> StrWhiteSpaceChar CHR ''-''" by (simp add: StrWhiteSpaceChar_def)
  then show "parseInt (CHR ''-'' # Z) = js_negate (to_double (decimal_value Z))"
    using c by (simp add: parseInt_def Z rest)
qed

lemma parseInt_decimal_numeral:
  assumes "\<bar>n\<bar> < 2 ^ 53"
  shows "parseInt (decimal_numeral n) = Finite n"
proof (cases "n < 0")
  case True
  with assms have "\<bar>int (nat (- n))\<bar> < 2 ^ 53" by simp
  then have "to_double (int (nat (- n))) = Finite (int (nat (- n)))" by (rule to_double_small)
  with True show ?thesis
    using parseInt_digits(2) [of "string_of_nat (nat (- n))"] string_of_nat_digits [of "nat (- n)"]
    by (simp add: decimal_numeral_def decimal_value_string_of_nat)
next
  case False
  with assms have "\<bar>int (nat n)\<bar> < 2 ^ 53" by simp
  then have "to_double (int (nat n)) = Finite (int (nat n))" by (rule to_double_small)
  with False show ?thesis
    using parseInt_digits(1) [of "string_of_nat (nat n)"] string_of_nat_digits [of "nat n"]
    by (simp add: decimal_numeral_def decimal_value_string_of_nat)
qed

section \<open>The outcomes of a read by id\<close>

lemma readJsonFile_files:
  "readJsonFile e path = (case files e path of Some (Json v) \<Rightarrow> v | other \<Rightarrow> JNull)"
  by (simp add: readJsonFile_def readFile_def JSON_parse_def split: option.splits contents.splits)

text \<open>
  C6, amended: for an integer id below \<open>2 ^ 53\<close> in magnitude, written into the path as
  its decimal numeral, and a file that holds a collection of records,
  \<^verbatim>\<open>GET /api/users/:id\<close> answers 200 with the first record whose id is that integer when
  there is one and 404 when there is none; it answers 500 when the file is missing or
  unreadable, is not JSON, or holds a value that is false in a condition. The answer is
  a function of the file and the id, so the three outcomes exclude each other, and there
  is no fourth.
\<close>

theorem getById_outcomes:
  assumes "\<bar>n\<bar> < 2 ^ 53"
    and "files e users_json = None \<or> files e users_json = Some Malformed
         \<or> (\<exists>v. files e users_json = Some (Json v) \<and> \<not> truthy v)
         \<or> (\<exists>us. files e users_json = Some (Json (JArr us)) \<and> list_all is_record us)"
  shows "get_api_users_id e (decimal_numeral n) =
           Inr (case files e users_json of
                  Some (Json (JArr us)) \<Rightarrow>
                    (case find (\<lambda>u. has_id u n) us of
                       Some u \<Rightarrow> Response 200 (SendJson u)
                     | None \<Rightarrow> Response 404 (SendText ''User not found''))
                | other \<Rightarrow> Response 500 (SendText ''Error reading users data''))"
proof -
  have id: "parseInt (decimal_numeral n) = Finite n"
    using assms(1) by (rule parseInt_decimal_numeral)
  from assms(2) consider
      (missing) "files e users_json = None"
    | (malformed) "files e users_json = Some Malformed"
    | (falsy) v where "files e users_json = Some (Json v)" "\<not> truthy v"
    | (collection) us where "files e users_json = Some (Json (JArr us))" "list_all is_record us"
    by auto
  then show ?thesis
  proof cases
    case missing
    then show ?thesis by (simp add: get_api_users_id_def readJsonFile_files)
  next
    case malformed
    then show ?thesis by (simp add: get_api_users_id_def readJsonFile_files)
  next
    case falsy
    then show ?thesis by (cases v) (simp_all add: get_api_users_id_def readJsonFile_files)
  next
    case collection
    show ?thesis
    proof (cases "find (\<lambda>u. has_id u n) us")
      case None
      with collection id show ?thesis
        by (simp add: get_api_users_id_def readJsonFile_files Array_find_records)
    next
      case (Some u)
      with collection have "truthy u" using find_record truthy_record by blast
      with Some collection id show ?thesis
        by (simp add: get_api_users_id_def readJsonFile_files Array_find_records)
    qed
  qed
qed

theorem getById_outcomes_witness:
  "\<bar>2 :: int\<bar> < 2 ^ 53
   \<and> decimal_numeral 2 = ''2''
   \<and> get_api_users_id (disk (Json (JArr [JObj [(''id'', JNum 1), (''name'', JStr ''Ann'')],
                                         JObj [(''id'', JNum 2), (''name'', JStr ''Bob'')],
                                         JObj [(''id'', JNum 2), (''name'', JStr ''Cid'')]]))) ''2''
       = Inr (Response 200 (SendJson (JObj [(''id'', JNum 2), (''name'', JStr ''Bob'')])))
   \<and> get_api_users_id (disk (Json (JArr [JObj [(''id'', JNum 1), (''name'', JStr ''Ann'')]]))) ''2''
       = Inr (Response 404 (SendText ''User not found''))
   \<and> get_api_users_id (disk Malformed) ''2''
       = Inr (Response 500 (SendText ''Error reading users data''))"
proof -
  let ?us = "[JObj [(''id'', JNum 1), (''name'', JStr ''Ann'')],
              JObj [(''id'', JNum 2), (''name'', JStr ''Bob'')],
              JObj [(''id'', JNum 2), (''name'', JStr ''Cid'')]]"
  let ?one = "[JObj [(''id'', JNum 1), (''name'', JStr ''Ann'')]]"
  have h1: "\<bar>2 :: int\<bar> < 2 ^ 53" by simp
  have d: "decimal_numeral 2 = ''2''"
    by (simp add: decimal_numeral_def string_of_nat.simps char_of_digits)
  have f: "files (disk (Json (JArr ?us))) users_json = Some (Json (JArr ?us))"
    "files (disk (Json (JArr ?one))) users_json = Some (Json (JArr ?one))"
    "files (disk Malformed) users_json = Some Malformed"
    by (simp_all add: disk_def)
  have h2: "files (disk (Json (JArr ?us))) users_json = None
      \<or> files (disk (Json (JArr ?us))) users_json = Some Malformed
      \<or> (\<exists>v. files (disk (Json (JArr ?us))) users_json = Some (Json v) \<and> \<not> truthy v)
      \<or> (\<exists>us. files (disk (Json (JArr ?us))) users_json = Some (Json (JArr us))
            \<and> list_all is_record us)"
    using f(1) by (simp add: is_record_def)
  have h3: "files (disk (Json (JArr ?one))) users_json = None
      \<or> files (disk (Json (JArr ?one))) users_json = Some Malformed
      \<or> (\<exists>v. files (disk (Json (JArr ?one))) users_json = Some (Json v) \<and> \<not> truthy v)
      \<or> (\<exists>us. files (disk (Json (JArr ?one))) users_json = Some (Json (JArr us))
            \<and> list_all is_record us)"
    using f(2) by (simp add: is_record_def)
  have h4: "files (disk Malformed) users_json = None
      \<or> files (disk Malformed) users_json = Some Malformed
      \<or> (\<exists>v. files (disk Malformed) users_json = Some (Json v) \<and> \<not> truthy v)
      \<or> (\<exists>us. files (disk Malformed) users_json = Some (Json (JArr us))
            \<and> list_all is_record us)"
    using f(3) by simp
  from getById_outcomes [OF h1 h2] getById_outcomes [OF h1 h3] getById_outcomes [OF h1 h4]
    h1 d f
  show ?thesis by (simp add: has_id_def)
qed

text \<open>
  C6 as stated fails where a Number stops being exact: the id asked for is
  \<open>2 ^ 53 + 1\<close>, no record has it, \<^verbatim>\<open>parseInt\<close> rounds it to \<open>2 ^ 53\<close>, and the
  record with the id \<open>2 ^ 53\<close> is answered.
\<close>

theorem getById_counterexample:
  "decimal_numeral 9007199254740993 = ''9007199254740993''
   \<and> find (\<lambda>u. has_id u 9007199254740993) [JObj [(''id'', JNum 9007199254740992)]] = None
   \<and> get_api_users_id (disk (Json (JArr [JObj [(''id'', JNum 9007199254740992)]])))
         ''9007199254740993''
       = Inr (Response 200 (SendJson (JObj [(''id'', JNum 9007199254740992)])))"
proof (intro conjI)
  show "decimal_numeral 9007199254740993 = ''9007199254740993''"
    by (simp add: decimal_numeral_def string_of_nat.simps char_of_digits)
  show "find (\<lambda>u. has_id u 9007199254740993) [JObj [(''id'', JNum 9007199254740992)]] = None"
    by (simp add: has_id_def)
  show "get_api_users_id (disk (Json (JArr [JObj [(''id'', JNum 9007199254740992)]])))
         ''9007199254740993''
       = Inr (Response 200 (SendJson (JObj [(''id'', JNum 9007199254740992)])))"
    by code_simp
qed

section \<open>An id that is no number\<close>

lemma Array_find_total:
  assumes "list_all is_record us"
  shows "\<exists>found. Array_find (\<lambda>u. case get_prop u ''id'' of
                                      Inl err \<Rightarrow> Inl err
                                    | Inr v \<Rightarrow> Inr (strict_equals v x)) us = Inr found"
  using assms
proof (induction us)
  case Nil
  then show ?case by simp
next
  case (Cons u us)
  then have "is_record u" by simp
  then obtain v where v: "get_prop u ''id'' = Inr v" using get_prop_record by blast
  with Cons show ?case by simp
qed

text \<open>
  C10: when \<^verbatim>\<open>parseInt\<close> makes NaN of the id parameter and the file holds a collection of
  records, the handler answers 404; it neither answers 500 nor throws. On such a file
  the handler answers for every string given as the id parameter.
\<close>

theorem getById_NaN_is_404:
  assumes "parseInt s = NaN"
    and "readJsonFile e users_json = JArr us"
    and "list_all is_record us"
  shows "get_api_users_id e s = Inr (Response 404 (SendText ''User not found''))
         \<and> (\<forall>t. \<exists>answer. get_api_users_id e t = Inr answer)"
proof
  show "get_api_users_id e s = Inr (Response 404 (SendText ''User not found''))"
    using assms by (simp add: get_api_users_id_def Array_find_NaN)
  show "\<forall>t. \<exists>answer. get_api_users_id e t = Inr answer"
  proof
    fix t
    from Array_find_total [OF assms(3), of "parseInt t"] obtain found where
      "Array_find (\<lambda>u. case get_prop u ''id'' of
                          Inl err \<Rightarrow> Inl err
                        | Inr v \<Rightarrow> Inr (strict_equals v (parseInt t))) us = Inr found"
      by blast
    with assms(2) show "\<exists>answer. get_api_users_id e t = Inr answer"
      by (cases found) (simp_all add: get_api_users_id_def)
  qed
qed

theorem getById_NaN_is_404_witness:
  "parseInt ''abc'' = NaN
   \<and> readJsonFile (disk (Json (JArr [JObj [(''id'', JNum 1), (''name'', JStr ''Ann'')]]))) users_json
       = JArr [JObj [(''id'', JNum 1), (''name'', JStr ''Ann'')]]
   \<and> get_api_users_id (disk (Json (JArr [JObj [(''id'', JNum 1), (''name'', JStr ''Ann'')]]))) ''abc''
       = Inr (Response 404 (SendText ''User not found''))"
proof -
  let ?us = "[JObj [(''id'', JNum 1), (''name'', JStr ''Ann'')]]"
  have h1: "parseInt ''abc'' = NaN" by code_simp
  have h2: "readJsonFile (disk (Json (JArr ?us))) users_json = JArr ?us"
    by (simp add: readJsonFile_def readFile_def JSON_parse_def disk_def)
  have h3: "list_all is_record ?us" by (simp add: is_record_def)
  from getById_NaN_is_404 [OF h1 h2 h3] h1 h2 show ?thesis by simp
qed

section \<open>What a create leaves on disk\<close>

text \<open>
  C8: after a create that was answered 201, \<^verbatim>\<open>users.json\<close> holds the array that was
  loaded with the one record that was sent appended at the end; every other file is as it
  was. \<^verbatim>\<open>GET /users\<close> before and after the create differ by that record only.
\<close>

theorem create_appends:
  assumes "post_users rt e body = (Response 201 sent, e')"
  shows "\<exists>us r. get_users e = Response 200 (SendJson (JArr us))
           \<and> sent = SendJson r
           \<and> get_users e' = Response 200 (SendJson (JArr (us @ [r])))
           \<and> files e' = (files e)(users_json := Some (Json (JArr (us @ [r]))))
           \<and> write_fails e' = write_fails e"
proof -
  from post_users_201 [OF assms] obtain us new_user
    where f: "files e users_json = Some (Json (JArr us))"
      and s: "sent = SendJson (serialize (VObj new_user))"
      and e': "e' = e\<lparr>files := (files e)(users_json :=
                   Some (Json (JArr (us @ [serialize (VObj new_user)]))))\<rparr>"
    by blast
  have "get_users e = Response 200 (SendJson (JArr us))"
    using f by (simp add: get_users_def readJsonFile_def readFile_def JSON_parse_def)
  moreover have "get_users e' = Response 200 (SendJson (JArr (us @ [serialize (VObj new_user)])))"
    using e' by (simp add: get_users_def readJsonFile_def readFile_def JSON_parse_def)
  ultimately show ?thesis using s e' by simp
qed

theorem create_appends_witness:
  "fst (post_users engine (disk (Json (JArr [JObj [(''id'', JNum 4), (''name'', JStr ''Ann'')]])))
          (JObj [(''name'', JStr ''Bob'')]))
     = Response 201 (SendJson (JObj [(''id'', JNum 5), (''name'', JStr ''Bob''),
                                      (''role'', JStr ''peasant'')]))
   \<and> (\<exists>us r. get_users (disk (Json (JArr [JObj [(''id'', JNum 4), (''name'', JStr ''Ann'')]])))
                 = Response 200 (SendJson (JArr us))
          \<and> get_users (snd (post_users engine
                  (disk (Json (JArr [JObj [(''id'', JNum 4), (''name'', JStr ''Ann'')]])))
                  (JObj [(''name'', JStr ''Bob'')])))
                 = Response 200 (SendJson (JArr (us @ [r]))))"
proof -
  let ?e = "disk (Json (JArr [JObj [(''id'', JNum 4), (''name'', JStr ''Ann'')]]))"
  let ?body = "JObj [(''name'', JStr ''Bob'')]"
  let ?r = "JObj [(''id'', JNum 5), (''name'', JStr ''Bob''), (''role'', JStr ''peasant'')]"
  have h: "fst (post_users engine ?e ?body) = Response 201 (SendJson ?r)"
    by code_simp
  then have "post_users engine ?e ?body
      = (Response 201 (SendJson ?r), snd (post_users engine ?e ?body))"
    by (simp add: prod_eq_iff)
  from create_appends [OF this] h show ?thesis by blast
qed

section \<open>Ids along a history of creates\<close>

lemma distinct_ids_ints:
  assumes "list_all2 has_id us ns"
  shows "distinct_ids us = distinct ns"
proof -
  from assms have "map (\<lambda>u. get_prop u ''id'') us = map (\<lambda>n. Inr (Some (JNum n))) ns"
    by (induction us ns rule: list_all2_induct) (simp_all add: has_id_def)
  moreover have "inj_on (\<lambda>n. (Inr (Some (JNum n)) :: exn + json option)) (set ns)"
    by (simp add: inj_on_def)
  ultimately show ?thesis by (simp add: distinct_ids_def distinct_map)
qed

text \<open>
  One create keeps the invariant: integer ids, pairwise distinct, with room for \<open>k\<close>
  more creates below \<open>2 ^ 53\<close>.
\<close>

lemma post_users_keeps_ids:
  assumes f: "files e users_json = Some (Json (JArr us))"
    and ids: "list_all2 has_id us ns"
    and dist: "distinct ns"
    and room: "\<forall>n\<in>set ns. - (2 ^ 53) < n \<and> n + 1 + k < 2 ^ 53"
    and k: "0 \<le> k" "1 + k < 2 ^ 53"
    and body: "''id'' \<notin> fst ` set (own_props body)"
  shows "\<exists>us' ns'. files (snd (post_users rt e body)) users_json = Some (Json (JArr us'))
           \<and> list_all2 has_id us' ns' \<and> distinct ns'
           \<and> (\<forall>n\<in>set ns'. - (2 ^ 53) < n \<and> n + k < 2 ^ 53)"
proof (cases "create_user rt e body")
  case (Inl err)
  then have "snd (post_users rt e body) = e" by (simp add: post_users_def)
  moreover from room have "\<forall>n\<in>set ns. - (2 ^ 53) < n \<and> n + k < 2 ^ 53" by auto
  ultimately show ?thesis using f ids dist by auto
next
  case (Inr res)
  obtain new_user e' where res: "res = (new_user, e')" by (cases res)
  with Inr have e': "snd (post_users rt e body) = e'" by (simp add: post_users_def)
  from Inr res f obtain next_id
    where nid: "nextId rt (JArr us) = Inr next_id"
      and nu: "newUser next_id body = Inr new_user"
      and upd: "e' = e\<lparr>files := (files e)(users_json :=
                   Some (Json (JArr (us @ [serialize (VObj new_user)]))))\<rparr>"
    using create_user_Inr [of rt e body new_user e'] by auto
  define m where "m = (if ns = [] then 1 else Max (set ns) + 1)"
  from room k have safe: "\<forall>n\<in>set ns. \<bar>n\<bar> < 2 ^ 53" by auto
  from nid nextId_safe_ints [OF ids safe, of rt] have "next_id = Finite m"
    by (simp add: m_def split: if_splits)
  with nu have "newUser (Finite m) body = Inr new_user" by simp
  then have r: "has_id (serialize (VObj new_user)) m" using body by (rule newUser_has_id)
  have fresh: "m \<notin> set ns"
  proof
    assume "m \<in> set ns"
    then have "ns \<noteq> []" and "m \<le> Max (set ns)" by auto
    then show False by (simp add: m_def)
  qed
  have bounds: "- (2 ^ 53) < m \<and> m + k < 2 ^ 53"
  proof (cases "ns = []")
    case True
    with k show ?thesis by (simp add: m_def)
  next
    case False
    then have "Max (set ns) \<in> set ns" by simp
    with room have "- (2 ^ 53) < Max (set ns) \<and> Max (set ns) + 1 + k < 2 ^ 53" by blast
    with False show ?thesis by (simp add: m_def)
  qed
  have "list_all2 has_id (us @ [serialize (VObj new_user)]) (ns @ [m])"
    using ids r by (simp add: list_all2_appendI)
  moreover have "distinct (ns @ [m])" using dist fresh by simp
  moreover have "\<forall>n\<in>set (ns @ [m]). - (2 ^ 53) < n \<and> n + k < 2 ^ 53"
    using room bounds by auto
  moreover have "files e' users_json = Some (Json (JArr (us @ [serialize (VObj new_user)])))"
    using upd by simp
  ultimately show ?thesis unfolding e' by blast
qed

lemma create_history_keeps_ids:
  assumes "files e users_json = Some (Json (JArr us))"
    and "list_all2 has_id us ns"
    and "distinct ns"
    and "\<forall>n\<in>set ns. - (2 ^ 53) < n \<and> n + int (length bodies) < 2 ^ 53"
    and "int (length bodies) < 2 ^ 53"
    and "\<forall>body\<in>set bodies. ''id'' \<notin> fst ` set (own_props body)"
  shows "\<exists>us' ns'. files (create_history rt e bodies) users_json = Some (Json (JArr us'))
           \<and> list_all2 has_id us' ns' \<and> distinct ns'"
  using assms
proof (induction bodies arbitrary: e us ns)
  case Nil
  then show ?case by auto
next
  case (Cons body bodies)
  have room: "\<forall>n\<in>set ns. - (2 ^ 53) < n \<and> n + 1 + int (length bodies) < 2 ^ 53"
    using Cons.prems(4) by (simp add: add.commute add.left_commute)
  have k: "0 \<le> int (length bodies)" "1 + int (length bodies) < 2 ^ 53"
    using Cons.prems(5) by simp_all
  have body: "''id'' \<notin> fst ` set (own_props body)" using Cons.prems(6) by simp
  from post_users_keeps_ids [OF Cons.prems(1) Cons.prems(2) Cons.prems(3) room k body, of rt]
  obtain us' ns' where
    step: "files (snd (post_users rt e body)) users_json = Some (Json (JArr us'))"
      "list_all2 has_id us' ns'" "distinct ns'"
      "\<forall>n\<in>set ns'. - (2 ^ 53) < n \<and> n + int (length bodies) < 2 ^ 53"
    by blast
  have len: "int (length bodies) < 2 ^ 53" using Cons.prems(5) by simp
  have rest: "\<forall>b\<in>set bodies. ''id'' \<notin> fst ` set (own_props b)" using Cons.prems(6) by simp
  from Cons.IH [OF step len rest] show ?case by simp
qed

text \<open>
  C4, amended: start from a collection whose ids are pairwise distinct integers, run any
  sequential history of creates whose bodies carry no property \<^verbatim>\<open>id\<close> of their own, and
  let the ids stay below \<open>2 ^ 53\<close> in magnitude over the whole history (each id plus the
  number of creates is below \<open>2 ^ 53\<close>). Then after each create the collection on disk
  still has pairwise distinct integer ids.
\<close>

theorem creates_keep_ids_distinct:
  assumes "files e users_json = Some (Json (JArr us))"
    and "list_all2 has_id us ns"
    and "distinct ns"
    and "\<forall>n\<in>set ns. - (2 ^ 53) < n \<and> n + int (length bodies) < 2 ^ 53"
    and "int (length bodies) < 2 ^ 53"
    and "\<forall>body\<in>set bodies. ''id'' \<notin> fst ` set (own_props body)"
    and "k \<le> length bodies"
  shows "\<exists>us' ns'. files (create_history rt e (take k bodies)) users_json
                     = Some (Json (JArr us'))
           \<and> list_all2 has_id us' ns' \<and> distinct_ids us'"
proof -
  have room: "\<forall>n\<in>set ns. - (2 ^ 53) < n \<and> n + int (length (take k bodies)) < 2 ^ 53"
    using assms(4) by auto
  have len: "int (length (take k bodies)) < 2 ^ 53" using assms(5) by simp
  have bodies: "\<forall>body\<in>set (take k bodies). ''id'' \<notin> fst ` set (own_props body)"
    using assms(6) by (meson in_set_takeD)
  from create_history_keeps_ids [OF assms(1) assms(2) assms(3) room len bodies, of rt]
  obtain us' ns' where
    "files (create_history rt e (take k bodies)) users_json = Some (Json (JArr us'))"
    "list_all2 has_id us' ns'" "distinct ns'"
    by blast
  then show ?thesis using distinct_ids_ints by blast
qed

theorem creates_keep_ids_distinct_witness:
  "files (disk (Json (JArr [JObj [(''id'', JNum 4), (''name'', JStr ''Ann'')]]))) users_json
     = Some (Json (JArr [JObj [(''id'', JNum 4), (''name'', JStr ''Ann'')]]))
   \<and> list_all2 has_id [JObj [(''id'', JNum 4), (''name'', JStr ''Ann'')]] [4]
   \<and> (\<exists>us' ns'. files (create_history engine
                           (disk (Json (JArr [JObj [(''id'', JNum 4), (''name'', JStr ''Ann'')]])))
                           (take 2 [JObj [(''name'', JStr ''Bob'')], JObj [(''role'', JStr ''king'')]]))
                     users_json = Some (Json (JArr us'))
          \<and> list_all2 has_id us' ns' \<and> distinct_ids us')"
proof -
  let ?us = "[JObj [(''id'', JNum 4), (''name'', JStr ''Ann'')]]"
  let ?bodies = "[JObj [(''name'', JStr ''Bob'')], JObj [(''role'', JStr ''king'')]]"
  have h1: "files (disk (Json (JArr ?us))) users_json = Some (Json (JArr ?us))"
    by (simp add: disk_def)
  have h2: "list_all2 has_id ?us [4]" by (simp add: has_id_def)
  have h3: "distinct [4 :: int]" by simp
  have h4: "\<forall>n\<in>set [4 :: int]. - (2 ^ 53) < n \<and> n + int (length ?bodies) < 2 ^ 53" by simp
  have h5: "int (length ?bodies) < 2 ^ 53" by simp
  have h6: "\<forall>body\<in>set ?bodies. ''id'' \<notin> fst ` set (own_props body)" by simp
  have h7: "2 \<le> length ?bodies" by simp
  from creates_keep_ids_distinct [OF h1 h2 h3 h4 h5 h6 h7, of engine] h1 h2
  show ?thesis by blast
qed

text \<open>
  C4 as stated fails without any id from the caller: the only id is \<open>2 ^ 53\<close>, the next
  id rounds to \<open>2 ^ 53\<close> again, and the collection on disk has that id twice.
\<close>

theorem creates_keep_ids_distinct_counterexample:
  "distinct_ids [JObj [(''id'', JNum 9007199254740992)]]
   \<and> files (create_history engine
              (disk (Json (JArr [JObj [(''id'', JNum 9007199254740992)]])))
              [JObj [(''name'', JStr ''Ann'')]]) users_json
       = Some (Json (JArr [JObj [(''id'', JNum 9007199254740992)],
                           JObj [(''id'', JNum 9007199254740992), (''name'', JStr ''Ann''),
                                 (''role'', JStr ''peasant'')]]))
   \<and> \<not> distinct_ids [JObj [(''id'', JNum 9007199254740992)],
                      JObj [(''id'', JNum 9007199254740992), (''name'', JStr ''Ann''),
                            (''role'', JStr ''peasant'')]]"
  by code_simp

end
